theory Spec2Isabelle
  imports Main "HOL-Library.Sublist" "HOL-Library.Multiset"
begin

section \<open>Python values, exceptions and string primitives\<close>

text \<open>
  The model-identity codec of \<^verbatim>\<open>evaluate.py\<close>, \<^verbatim>\<open>embeddings.py\<close> and
  \<^verbatim>\<open>evaluate_multiclass.py\<close> is string processing with Python's built-ins. Every
  exception the code can raise is a value of \<open>py_error\<close>; a function that may raise returns
  \<open>py_error + 'a\<close>. Python's \<^verbatim>\<open>None\<close> is a value, not an exception: a function
  that may return it has result type \<open>'a option\<close>.

  Strings are lists of characters with code points below 256.
\<close>

datatype py_error =
    ValueError_granularity     \<comment> \<open>\<^verbatim>\<open>ValueError("granularity not found")\<close>\<close>
  | ValueError_parameter       \<comment> \<open>\<^verbatim>\<open>ValueError("invalid parameter input")\<close>\<close>
  | ValueError_int string      \<comment> \<open>\<^verbatim>\<open>int(s)\<close> on a string that is no decimal literal\<close>
  | TypeError_int_None         \<comment> \<open>\<^verbatim>\<open>int(None)\<close>\<close>
  | StopIteration              \<comment> \<open>\<^verbatim>\<open>next\<close> on an exhausted iterator\<close>
  | KeyError string            \<comment> \<open>dictionary subscript with an absent key\<close>
  | IndexError                 \<comment> \<open>subscript of an empty string\<close>
  | OverflowError              \<comment> \<open>true division whose result exceeds the largest float\<close>

text \<open>Sequencing of computations that may raise.\<close>

definition bind_err :: "'e + 'a \<Rightarrow> ('a \<Rightarrow> 'e + 'b) \<Rightarrow> 'e + 'b" where
  "bind_err m f = (case m of Inl e \<Rightarrow> Inl e | Inr x \<Rightarrow> f x)"

text \<open>\<^verbatim>\<open>sub in s\<close>: \<open>sub\<close> occurs in \<open>s\<close> as a contiguous substring.\<close>

fun py_in :: "string \<Rightarrow> string \<Rightarrow> bool" where
  "py_in sub [] = (sub = [])"
| "py_in sub (c # cs) = (prefix sub (c # cs) \<or> py_in sub cs)"

text \<open>\<^verbatim>\<open>s.split(sep)\<close> for a separator of one character (all call sites pass one).\<close>

fun py_split :: "string \<Rightarrow> char \<Rightarrow> string list" where
  "py_split [] sep = [[]]"
| "py_split (c # cs) sep =
     (if c = sep then [] # py_split cs sep
      else (case py_split cs sep of [] \<Rightarrow> [[c]] | t # ts \<Rightarrow> (c # t) # ts))"

text \<open>
  \<^verbatim>\<open>s.replace(old, new)\<close>: every occurrence of \<open>old\<close>, found left to right without
  overlap, is replaced. With an empty \<open>old\<close> Python inserts \<open>new\<close> before every
  character and at the end.
\<close>

fun py_replace :: "string \<Rightarrow> string \<Rightarrow> string \<Rightarrow> string" where
  "py_replace [] old new = (if old = [] then new else [])"
| "py_replace (c # cs) [] new = new @ c # py_replace cs [] new"
| "py_replace (c # cs) (x # xs) new =
     (if prefix (x # xs) (c # cs) then new @ py_replace (drop (length xs) cs) (x # xs) new
      else c # py_replace cs (x # xs) new)"

text \<open>
  \<^verbatim>\<open>int(s)\<close> in base 10: surrounding whitespace is stripped, one sign is allowed, the
  rest is a non-empty run of decimal digits in which single underscores may separate digits.
  The whitespace that \<^verbatim>\<open>int\<close> strips is tab, line feed, vertical tab, form feed,
  carriage return and space, and the two blanks \<open>133\<close> and \<open>160\<close> above the ASCII range;
  the separators \<open>28\<close> to \<open>31\<close> are not stripped.
\<close>

definition py_isspace :: "char \<Rightarrow> bool" where
  "py_isspace c = (of_char c \<in> set [9, 10, 11, 12, 13, 32, 133, 160 :: nat])"

definition py_isdigit :: "char \<Rightarrow> bool" where
  "py_isdigit c = (48 \<le> (of_char c :: nat) \<and> (of_char c :: nat) \<le> 57)"

definition py_strip :: "string \<Rightarrow> string" where
  "py_strip s = rev (dropWhile py_isspace (rev (dropWhile py_isspace s)))"

fun digits_ok :: "string \<Rightarrow> bool" where
  "digits_ok [] = False"
| "digits_ok [c] = py_isdigit c"
| "digits_ok (c # d # cs) =
     (py_isdigit c \<and> (if d = CHR ''_'' then digits_ok cs else digits_ok (d # cs)))"

definition digits_value :: "string \<Rightarrow> nat" where
  "digits_value s = foldl (\<lambda>a c. 10 * a + (of_char c - 48)) 0 (filter (\<lambda>c. c \<noteq> CHR ''_'') s)"

definition py_int :: "string \<Rightarrow> py_error + int" where
  "py_int s =
     (let t = py_strip s;
          neg = (t \<noteq> [] \<and> hd t = CHR ''-'');
          body = (if t \<noteq> [] \<and> (hd t = CHR ''-'' \<or> hd t = CHR ''+'') then tl t else t)
      in if digits_ok body
         then Inr (if neg then - int (digits_value body) else int (digits_value body))
         else Inl (ValueError_int s))"

text \<open>\<^verbatim>\<open>str(i)\<close> of an integer: its decimal digits, after a minus sign when negative.\<close>

definition digit_char :: "nat \<Rightarrow> char" where
  "digit_char d = char_of (48 + d)"

function str_nat :: "nat \<Rightarrow> string" where
  "str_nat n = (if n < 10 then [digit_char n] else str_nat (n div 10) @ [digit_char (n mod 10)])"
  by pat_completeness auto
termination
  by (relation "measure id") auto

declare str_nat.simps [simp del]

definition py_str :: "int \<Rightarrow> string" where
  "py_str i = (if i < 0 then CHR ''-'' # str_nat (nat (- i)) else str_nat (nat i))"

section \<open>The label hierarchy (\<^verbatim>\<open>utility/cifar_utils.py\<close>)\<close>

text \<open>\<^verbatim>\<open>coarse_class_to_idx\<close>: a dictionary, kept in insertion order because the codec
  iterates over its keys.\<close>

definition coarse_class_to_idx :: "(string \<times> int) list" where
  "coarse_class_to_idx =
    [(''aquatic_mammals'', 0),
     (''fish'', 1),
     (''flowers'', 2),
     (''food_containers'', 3),
     (''fruit_and_vegetables'', 4),
     (''household_electrical_devices'', 5),
     (''household_furniture'', 6),
     (''insects'', 7),
     (''large_carnivores'', 8),
     (''large_man-made_outdoor_things'', 9),
     (''large_natural_outdoor_scenes'', 10),
     (''large_omnivores_and_herbivores'', 11),
     (''medium_mammals'', 12),
     (''non-insect_invertebrates'', 13),
     (''people'', 14),
     (''reptiles'', 15),
     (''small_mammals'', 16),
     (''trees'', 17),
     (''vehicles_1'', 18),
     (''vehicles_2'', 19)]"

text \<open>\<^verbatim>\<open>fine_idx_to_coarse\<close>: position = fine label, entry = coarse label.\<close>

definition fine_idx_to_coarse :: "int list" where
  "fine_idx_to_coarse =
    [4, 1, 14, 8, 0, 6, 7, 7, 18, 3,
     3, 14, 9, 18, 7, 11, 3, 9, 7, 11,
     6, 11, 5, 10, 7, 6, 13, 15, 3, 15,
     0, 11, 1, 10, 12, 14, 16, 9, 11, 5,
     5, 19, 8, 8, 15, 13, 14, 17, 18, 10,
     16, 4, 17, 4, 2, 0, 17, 4, 18, 17,
     10, 3, 2, 12, 12, 16, 12, 1, 9, 19,
     2, 10, 0, 1, 16, 12, 9, 13, 15, 13,
     16, 19, 2, 4, 6, 19, 5, 5, 8, 19,
     18, 1, 2, 15, 6, 0, 17, 8, 14, 13]"

text \<open>
  \<^verbatim>\<open>fine_to_coarse_idxs = dict(enumerate(fine_idx_to_coarse))\<close>. The data loaders look
  a target up with \<^verbatim>\<open>fine_to_coarse_idxs.get\<close>, which is application of the map:
  \<open>None\<close> is Python's \<^verbatim>\<open>None\<close>, returned for an absent key; \<^verbatim>\<open>dict.get\<close>
  raises nothing, which \<open>fine_to_coarse_idxs_get\<close> makes explicit in its result type.
\<close>

definition fine_to_coarse_idxs :: "int \<rightharpoonup> int" where
  "fine_to_coarse_idxs = map_of (map (\<lambda>(i, c). (int i, c)) (enumerate 0 fine_idx_to_coarse))"

text \<open>
  The coarse branch of \<^verbatim>\<open>get_test_dataloader\<close> and \<^verbatim>\<open>get_validation_dataloader\<close>
  (\<^verbatim>\<open>embeddings.py\<close>): \<^verbatim>\<open>targets = list(map(fine_to_coarse_idxs.get, targets))\<close>.
\<close>

definition fine_to_coarse_idxs_get :: "int \<Rightarrow> py_error + int option" where
  "fine_to_coarse_idxs_get k = Inr (fine_to_coarse_idxs k)"

definition remap_targets :: "int list \<Rightarrow> int option list" where
  "remap_targets targets = map fine_to_coarse_idxs targets"


section \<open>The model-identity codec\<close>

subsection \<open>\<^verbatim>\<open>evaluate.py\<close> and \<^verbatim>\<open>embeddings.py\<close>: the shared functions\<close>

text \<open>
  \<^verbatim>\<open>get_granularity\<close>, \<^verbatim>\<open>get_parameter\<close> and \<^verbatim>\<open>get_parameters\<close> have the same
  text in both files.
\<close>

definition get_granularity :: "string \<Rightarrow> py_error + string" where
  "get_granularity name =
     (if py_in ''coarse'' name then Inr ''coarse''
      else if py_in ''fine'' name then Inr ''fine''
      else Inl ValueError_granularity)"

text \<open>
  The loop of \<^verbatim>\<open>get_parameter\<close> returns at the first element that contains \<open>param\<close>;
  when no element does, the function falls off its end and returns \<^verbatim>\<open>None\<close>.
\<close>

fun get_parameter_loop :: "string \<Rightarrow> string \<Rightarrow> string list \<Rightarrow> py_error + int option" where
  "get_parameter_loop param extension [] = Inr None"
| "get_parameter_loop param extension (element # rest) =
     (if py_in param element
      then bind_err (py_int (py_replace (py_replace element param []) extension []))
             (\<lambda>i. Inr (Some i))
      else get_parameter_loop param extension rest)"

definition get_parameter :: "string \<Rightarrow> string \<Rightarrow> py_error + int option" where
  "get_parameter name param =
     (let extension = CHR ''.'' # last (py_split name (CHR ''.''))
      in if param \<notin> set [''class'', ''crop'', ''kernel'', ''width'', ''depth'']
         then Inl ValueError_parameter
         else get_parameter_loop param extension (py_split name (CHR ''_'')))"

text \<open>\<^verbatim>\<open>int(x)\<close> for \<open>x\<close> the result of \<^verbatim>\<open>get_parameter\<close>: an integer or \<^verbatim>\<open>None\<close>.\<close>

definition int_of_result :: "int option \<Rightarrow> py_error + int" where
  "int_of_result x = (case x of None \<Rightarrow> Inl TypeError_int_None | Some i \<Rightarrow> Inr i)"

definition get_parameters :: "string \<Rightarrow> py_error + (string \<times> int \<times> int \<times> int \<times> int \<times> int)" where
  "get_parameters model_filename =
     bind_err (get_granularity model_filename) (\<lambda>granularity.
     bind_err (bind_err (get_parameter model_filename ''class'') int_of_result) (\<lambda>class_id.
     bind_err (bind_err (get_parameter model_filename ''crop'') int_of_result) (\<lambda>crop_size.
     bind_err (bind_err (get_parameter model_filename ''kernel'') int_of_result) (\<lambda>kernel_size.
     bind_err (bind_err (get_parameter model_filename ''width'') int_of_result) (\<lambda>width_factor.
     bind_err (bind_err (get_parameter model_filename ''depth'') int_of_result) (\<lambda>depth.
     Inr (granularity, class_id, crop_size, kernel_size, width_factor, depth)))))))"

text \<open>
  \<^verbatim>\<open>next(compress(keys, [k in filename for k in keys]))\<close>: the first key, in the
  dictionary's order, that occurs in the file name; \<^verbatim>\<open>StopIteration\<close> when none does.
\<close>

definition first_superclass :: "string \<Rightarrow> py_error + string" where
  "first_superclass filename =
     (case find (\<lambda>k. py_in k filename) (map fst coarse_class_to_idx) of
        None \<Rightarrow> Inl StopIteration
      | Some superclass \<Rightarrow> Inr superclass)"

definition coarse_class_to_idx_item :: "string \<Rightarrow> py_error + int" where
  "coarse_class_to_idx_item k =
     (case map_of coarse_class_to_idx k of None \<Rightarrow> Inl (KeyError k) | Some i \<Rightarrow> Inr i)"

subsection \<open>\<^verbatim>\<open>embeddings.py\<close>\<close>

definition superclass_to_idx_embeddings :: "string \<Rightarrow> py_error + string" where
  "superclass_to_idx_embeddings filename =
     (if py_in ''_all_'' filename then Inr (py_replace filename ''_all_'' ''_class-1_'')
      else bind_err (first_superclass filename) (\<lambda>superclass.
           bind_err (coarse_class_to_idx_item superclass) (\<lambda>superclass_idx.
           Inr (py_replace filename superclass (''class'' @ py_str superclass_idx)))))"

definition parse_model_path_embeddings :: "string \<Rightarrow> py_error + string" where
  "parse_model_path_embeddings model_path =
     (let model_name = last (py_split model_path (CHR ''/''));
          model_name = py_replace (py_replace model_name ''.pt'' []) ''model_'' []
      in superclass_to_idx_embeddings model_name)"

text \<open>The decoding steps of \<^verbatim>\<open>main\<close>:
  \<^verbatim>\<open>get_parameters(parse_model_path(str(mp)))\<close>.\<close>

definition decode_embeddings ::
    "string \<Rightarrow> py_error + (string \<times> int \<times> int \<times> int \<times> int \<times> int)" where
  "decode_embeddings mp = bind_err (parse_model_path_embeddings mp) get_parameters"

subsection \<open>\<^verbatim>\<open>evaluate.py\<close>\<close>

text \<open>
  Here \<^verbatim>\<open>superclass_to_idx\<close> returns the pair \<^verbatim>\<open>(filename.replace("all_", ""), None)\<close>
  on its first branch and a string on its second.
\<close>

datatype str_or_pair = Str string | Pair_None string

definition superclass_to_idx_evaluate :: "string \<Rightarrow> py_error + str_or_pair" where
  "superclass_to_idx_evaluate filename =
     (if py_in ''all_'' filename then Inr (Pair_None (py_replace filename ''all_'' []))
      else bind_err (first_superclass filename) (\<lambda>superclass.
           bind_err (coarse_class_to_idx_item superclass) (\<lambda>superclass_idx.
           Inr (Str (py_replace filename superclass (''class'' @ py_str superclass_idx))))))"

definition parse_model_path_evaluate :: "string \<Rightarrow> py_error + str_or_pair" where
  "parse_model_path_evaluate model_path =
     (let model_name = last (py_split model_path (CHR ''/''));
          model_name = py_replace (py_replace model_name ''.pt'' []) ''model_'' []
      in superclass_to_idx_evaluate model_name)"

text \<open>
  \<^verbatim>\<open>x[0]\<close>: the first component of a pair, the first character of a string
  (\<^verbatim>\<open>IndexError\<close> when the string is empty).
\<close>

definition subscript_0 :: "str_or_pair \<Rightarrow> py_error + string" where
  "subscript_0 x =
     (case x of Pair_None s \<Rightarrow> Inr s
      | Str s \<Rightarrow> (case s of [] \<Rightarrow> Inl IndexError | c # cs \<Rightarrow> Inr [c]))"

text \<open>The decoding steps of \<^verbatim>\<open>main\<close>:
  \<^verbatim>\<open>get_parameters(parse_model_path(model_path)[0])\<close>.\<close>

definition decode_evaluate ::
    "string \<Rightarrow> py_error + (string \<times> int \<times> int \<times> int \<times> int \<times> int)" where
  "decode_evaluate model_path =
     bind_err (bind_err (parse_model_path_evaluate model_path) subscript_0) get_parameters"

subsection \<open>\<^verbatim>\<open>evaluate_multiclass.py\<close>\<close>

definition get_parameter_multiclass :: "string \<Rightarrow> string \<Rightarrow> py_error + int option" where
  "get_parameter_multiclass name param =
     (let extension = CHR ''.'' # last (py_split name (CHR ''.''))
      in if param \<notin> set [''crop'', ''kernel'', ''width'', ''depth'']
         then Inl ValueError_parameter
         else get_parameter_loop param extension (py_split name (CHR ''_'')))"

text \<open>
  \<^verbatim>\<open>int(crop_size / 4)\<close>. The true division of two integers is the double nearest to the
  exact quotient (ties to even), \<^verbatim>\<open>OverflowError\<close> when that is \<open>2 ^ 1024\<close> or more;
  \<^verbatim>\<open>int\<close> then truncates towards zero. Dividing by 4 only changes the exponent, so the
  rounding is that of the numerator to 53 significant bits.
\<close>

function bit_length :: "nat \<Rightarrow> nat" where
  "bit_length n = (if n = 0 then 0 else Suc (bit_length (n div 2)))"
  by pat_completeness auto
termination
  by (relation "measure id") auto

declare bit_length.simps [simp del]

definition round_to_double :: "nat \<Rightarrow> nat" where
  "round_to_double a =
     (if bit_length a \<le> 53 then a
      else let s = bit_length a - 53;
               m = a div 2 ^ s;
               r = a mod 2 ^ s;
               half = 2 ^ (s - 1)
           in (if half < r \<or> (r = half \<and> odd m) then m + 1 else m) * 2 ^ s)"

definition int_truediv_4 :: "int \<Rightarrow> py_error + int" where
  "int_truediv_4 n =
     (let a = round_to_double (nat \<bar>n\<bar>)
      in if 2 ^ 1026 \<le> a then Inl OverflowError
         else Inr (if n < 0 then - int (a div 4) else int (a div 4)))"

definition get_parameters_multiclass :: "string \<Rightarrow> py_error + (int \<times> int \<times> int \<times> int)" where
  "get_parameters_multiclass model_filename =
     bind_err (bind_err (get_parameter_multiclass model_filename ''crop'') int_of_result) (\<lambda>crop_size.
     bind_err (int_truediv_4 crop_size) (\<lambda>kernel_size.
     bind_err (bind_err (get_parameter_multiclass model_filename ''width'') int_of_result) (\<lambda>width_factor.
     bind_err (bind_err (get_parameter_multiclass model_filename ''depth'') int_of_result) (\<lambda>depth.
     Inr (crop_size, kernel_size, width_factor, depth)))))"

definition parse_model_path_multiclass :: "string \<Rightarrow> string" where
  "parse_model_path_multiclass model_path =
     (let model_name = last (py_split model_path (CHR ''/''))
      in py_replace (py_replace model_name ''.pt'' []) ''model_'' [])"

section \<open>Facts about the string primitives\<close>

subsection \<open>\<^verbatim>\<open>int(str(i))\<close> is \<open>i\<close>\<close>

lemma of_char_digit_char: "d < 10 \<Longrightarrow> of_char (digit_char d) = 48 + d"
  by (simp add: digit_char_def)

lemma py_isdigit_digit_char: "d < 10 \<Longrightarrow> py_isdigit (digit_char d)"
  by (simp add: py_isdigit_def of_char_digit_char)

lemma str_nat_small: "n < 10 \<Longrightarrow> str_nat n = [digit_char n]"
  by (subst str_nat.simps) simp

lemma str_nat_big: "\<not> n < 10 \<Longrightarrow> str_nat n = str_nat (n div 10) @ [digit_char (n mod 10)]"
  by (subst str_nat.simps) simp

lemma str_nat_digits: "c \<in> set (str_nat n) \<Longrightarrow> py_isdigit c"
proof (induction n arbitrary: c rule: str_nat.induct)
  case (1 n)
  show ?case
  proof (cases "n < 10")
    case True
    with "1.prems" show ?thesis by (simp add: str_nat_small py_isdigit_digit_char)
  next
    case False
    with "1.prems" have "c \<in> set (str_nat (n div 10)) \<or> c = digit_char (n mod 10)"
      by (auto simp add: str_nat_big)
    then show ?thesis using "1.IH" False by (auto simp add: py_isdigit_digit_char)
  qed
qed

lemma str_nat_nonempty: "str_nat n \<noteq> []"
  by (cases "n < 10") (simp_all add: str_nat_small str_nat_big)

lemma digits_value_snoc:
  "c \<noteq> CHR ''_'' \<Longrightarrow> digits_value (s @ [c]) = 10 * digits_value s + (of_char c - 48)"
  by (simp add: digits_value_def)

lemma py_isdigit_not_underscore: "py_isdigit c \<Longrightarrow> c \<noteq> CHR ''_''"
  by (auto simp add: py_isdigit_def)

lemma digits_value_str_nat: "digits_value (str_nat n) = n"
proof (induction n rule: str_nat.induct)
  case (1 n)
  show ?case
  proof (cases "n < 10")
    case True
    then have "digit_char n \<noteq> CHR ''_''"
      by (intro py_isdigit_not_underscore py_isdigit_digit_char)
    with True show ?thesis
      by (simp add: str_nat_small digits_value_def of_char_digit_char)
  next
    case False
    have d: "digit_char (n mod 10) \<noteq> CHR ''_''"
      by (rule py_isdigit_not_underscore) (simp add: py_isdigit_digit_char)
    have "digits_value (str_nat n) = digits_value (str_nat (n div 10) @ [digit_char (n mod 10)])"
      using False by (simp add: str_nat_big)
    also have "\<dots> = 10 * digits_value (str_nat (n div 10)) + (of_char (digit_char (n mod 10)) - 48)"
      using d by (rule digits_value_snoc)
    also have "\<dots> = 10 * (n div 10) + n mod 10"
      using False "1.IH" by (simp add: of_char_digit_char)
    finally show ?thesis by simp
  qed
qed

lemma digits_ok_all_digits: "s \<noteq> [] \<Longrightarrow> \<forall>c\<in>set s. py_isdigit c \<Longrightarrow> digits_ok s"
proof (induction s rule: digits_ok.induct)
  case 1
  then show ?case by simp
next
  case (2 c)
  then show ?case by simp
next
  case (3 c d cs)
  then show ?case by (auto dest: py_isdigit_not_underscore)
qed

lemma py_isdigit_not_space: "py_isdigit c \<Longrightarrow> \<not> py_isspace c"
  by (auto simp add: py_isdigit_def py_isspace_def)

lemma py_strip_id: "s \<noteq> [] \<Longrightarrow> \<not> py_isspace (hd s) \<Longrightarrow> \<not> py_isspace (last s) \<Longrightarrow> py_strip s = s"
proof -
  assume s: "s \<noteq> []" and h: "\<not> py_isspace (hd s)" and l: "\<not> py_isspace (last s)"
  from s h have 1: "dropWhile py_isspace s = s" by (cases s) simp_all
  from s l have 2: "dropWhile py_isspace (rev s) = rev s"
    by (cases "rev s") (simp_all add: last_rev [symmetric] hd_rev)
  show ?thesis by (simp add: py_strip_def 1 2)
qed

lemma py_int_str_nat: "py_int (str_nat n) = Inr (int n)"
proof -
  have ne: "str_nat n \<noteq> []" by (rule str_nat_nonempty)
  have dg: "\<forall>c\<in>set (str_nat n). py_isdigit c" by (simp add: str_nat_digits)
  have hd: "py_isdigit (hd (str_nat n))" using ne dg by simp
  have la: "py_isdigit (last (str_nat n))" using ne dg by simp
  have st: "py_strip (str_nat n) = str_nat n"
    using ne hd la by (simp add: py_strip_id py_isdigit_not_space)
  have sg: "hd (str_nat n) \<noteq> CHR ''-'' \<and> hd (str_nat n) \<noteq> CHR ''+''"
    using hd by (auto simp add: py_isdigit_def)
  show ?thesis
    using ne sg by (simp add: py_int_def st Let_def digits_ok_all_digits dg digits_value_str_nat)
qed

lemma py_int_minus_str_nat: "0 < n \<Longrightarrow> py_int (CHR ''-'' # str_nat n) = Inr (- int n)"
proof -
  assume "0 < n"
  have ne: "str_nat n \<noteq> []" by (rule str_nat_nonempty)
  have dg: "\<forall>c\<in>set (str_nat n). py_isdigit c" by (simp add: str_nat_digits)
  have la: "py_isdigit (last (str_nat n))" using ne dg by simp
  have "\<not> py_isspace (CHR ''-'')" by (simp add: py_isspace_def)
  then have st: "py_strip (CHR ''-'' # str_nat n) = CHR ''-'' # str_nat n"
    using ne la by (simp add: py_strip_id py_isdigit_not_space)
  show ?thesis
    by (simp add: py_int_def st Let_def digits_ok_all_digits ne dg digits_value_str_nat)
qed

lemma py_int_py_str: "py_int (py_str i) = Inr i"
  by (cases "i < 0") (simp_all add: py_str_def py_int_str_nat py_int_minus_str_nat)

lemma py_str_nonempty: "py_str i \<noteq> []"
  by (simp add: py_str_def str_nat_nonempty)

lemma py_str_chars: "c \<in> set (py_str i) \<Longrightarrow> py_isdigit c \<or> c = CHR ''-''"
  by (auto simp add: py_str_def dest: str_nat_digits split: if_splits)

section \<open>Properties of the label hierarchy\<close>

lemma fine_to_coarse_idxs_eq: "fine_to_coarse_idxs k = (if 0 \<le> k \<and> k < 100 then Some (fine_idx_to_coarse ! nat k) else None)"
proof -
  have len: "length fine_idx_to_coarse = 100" by (simp add: fine_idx_to_coarse_def)
  have m: "map (\<lambda>(i, c). (int i, c)) (enumerate 0 xs) = zip (map int [0..<length xs]) xs" for xs :: "int list"
    by (simp add: enumerate_eq_zip zip_map1)
  have r: "fine_to_coarse_idxs j = map_of (zip (map int [0..<100]) fine_idx_to_coarse) j" for j
    by (simp add: fine_to_coarse_idxs_def m len)
  show ?thesis
  proof (cases "0 \<le> k \<and> k < 100")
    case True
    define n where "n = nat k"
    have n: "k = int n" "n < 100" using True unfolding n_def by auto
    have "map_of (zip (map int [0..<100]) fine_idx_to_coarse) (map int [0..<100] ! n) = Some (fine_idx_to_coarse ! n)"
      by (rule map_of_zip_nth) (simp_all add: len distinct_map n)
    then have "fine_to_coarse_idxs k = Some (fine_idx_to_coarse ! nat k)"
      using n by (simp add: r)
    then show ?thesis using True by simp
  next
    case False
    have "k \<notin> set (map int [0..<100])" using False by auto
    then have "map_of (zip (map int [0..<100]) fine_idx_to_coarse) k = None"
      by (simp add: len)
    then have "fine_to_coarse_idxs k = None" by (simp only: r)
    then show ?thesis using False by (simp only: if_False if_not_P)
  qed
qed


lemma fine_idx_to_coarse_length: "length fine_idx_to_coarse = 100"
  by (simp add: fine_idx_to_coarse_def)

lemma fine_idx_to_coarse_set: "set fine_idx_to_coarse = {0..19}"
proof
  show "set fine_idx_to_coarse \<subseteq> {0..19}"
    by (simp add: fine_idx_to_coarse_def)
  show "{0..19} \<subseteq> set fine_idx_to_coarse"
  proof
    fix x :: int assume "x \<in> {0..19}"
    then have "x = 0 \<or> x = 1 \<or> x = 2 \<or> x = 3 \<or> x = 4 \<or> x = 5 \<or> x = 6 \<or> x = 7 \<or> x = 8 \<or> x = 9
       \<or> x = 10 \<or> x = 11 \<or> x = 12 \<or> x = 13 \<or> x = 14 \<or> x = 15 \<or> x = 16 \<or> x = 17 \<or> x = 18 \<or> x = 19"
      by (simp only: atLeastAtMost_iff) presburger
    then show "x \<in> set fine_idx_to_coarse"
      by (auto simp add: fine_idx_to_coarse_def)
  qed
qed

lemma remap_full_range:
  "map fine_to_coarse_idxs (map int [0..<100]) = map Some fine_idx_to_coarse"
proof (rule nth_equalityI)
  show "length (map fine_to_coarse_idxs (map int [0..<100])) = length (map Some fine_idx_to_coarse)"
    by (simp add: fine_idx_to_coarse_length)
next
  fix i assume "i < length (map fine_to_coarse_idxs (map int [0..<100]))"
  then have i: "i < 100" by simp
  then show "map fine_to_coarse_idxs (map int [0..<100]) ! i = map Some fine_idx_to_coarse ! i"
    by (simp add: fine_to_coarse_idxs_eq fine_idx_to_coarse_length)
qed

lemma count_map_filter:
  "count (mset (map f xs)) y = length (filter (\<lambda>x. f x = y) xs)"
  by (induction xs) auto

lemma count_map_Some: "count (mset (map Some xs)) (Some c) = count (mset xs) c"
  by (induction xs) auto

lemma fine_idx_to_coarse_count:
  assumes "0 \<le> c" "c \<le> 19"
  shows "count (mset fine_idx_to_coarse) c = 5"
proof -
  from assms have "c = 0 \<or> c = 1 \<or> c = 2 \<or> c = 3 \<or> c = 4 \<or> c = 5 \<or> c = 6 \<or> c = 7 \<or> c = 8 \<or> c = 9
       \<or> c = 10 \<or> c = 11 \<or> c = 12 \<or> c = 13 \<or> c = 14 \<or> c = 15 \<or> c = 16 \<or> c = 17 \<or> c = 18 \<or> c = 19"
    by presburger
  then show ?thesis
    by (elim disjE) (simp_all add: fine_idx_to_coarse_def)
qed


text \<open>
  Claim C6, as amended. The fine-to-coarse lookup used by the data loaders,
  \<^verbatim>\<open>fine_to_coarse_idxs.get\<close>, returns a coarse index in \<open>0..19\<close> for every fine index in
  \<open>0..99\<close>; for every integer outside that range it raises nothing and returns
  \<^verbatim>\<open>None\<close>.
\<close>

theorem coarse_lookup_total_or_none:
  "(0 \<le> k \<and> k \<le> 99 \<longrightarrow>
      (\<exists>c. fine_to_coarse_idxs_get k = Inr (Some c) \<and> 0 \<le> c \<and> c \<le> 19)) \<and>
   (k < 0 \<or> 99 < k \<longrightarrow> fine_to_coarse_idxs_get k = Inr None)"
proof (intro conjI impI)
  assume k: "0 \<le> k \<and> k \<le> 99"
  then have "nat k < length fine_idx_to_coarse" by (auto simp add: fine_idx_to_coarse_length)
  then have "fine_idx_to_coarse ! nat k \<in> set fine_idx_to_coarse" by (rule nth_mem)
  then have "0 \<le> fine_idx_to_coarse ! nat k \<and> fine_idx_to_coarse ! nat k \<le> 19"
    by (simp add: fine_idx_to_coarse_set)
  moreover have "fine_to_coarse_idxs_get k = Inr (Some (fine_idx_to_coarse ! nat k))"
    using k by (simp add: fine_to_coarse_idxs_get_def fine_to_coarse_idxs_eq)
  ultimately show "\<exists>c. fine_to_coarse_idxs_get k = Inr (Some c) \<and> 0 \<le> c \<and> c \<le> 19"
    by blast
next
  assume "k < 0 \<or> 99 < k"
  then show "fine_to_coarse_idxs_get k = Inr None"
    by (auto simp add: fine_to_coarse_idxs_get_def fine_to_coarse_idxs_eq)
qed

theorem coarse_lookup_total_or_none_witness:
  "(\<exists>c. fine_to_coarse_idxs_get 42 = Inr (Some c) \<and> 0 \<le> c \<and> c \<le> 19) \<and>
   fine_to_coarse_idxs_get 100 = Inr None \<and> fine_to_coarse_idxs_get (- 1) = Inr None"
  using coarse_lookup_total_or_none [of 42] coarse_lookup_total_or_none [of 100]
    coarse_lookup_total_or_none [of "- 1"]
  by simp

text \<open>
  Claim C6 as stated asks for an \<^verbatim>\<open>IndexOutOfRange\<close> failure at \<open>-1\<close> and \<open>100\<close>. The
  lookup does not fail there: it returns \<^verbatim>\<open>None\<close>.
\<close>

theorem coarse_lookup_out_of_range_counterexample:
  "fine_to_coarse_idxs_get (- 1) = Inr None \<and> fine_to_coarse_idxs_get 100 = Inr None"
  by (simp add: fine_to_coarse_idxs_get_def fine_to_coarse_idxs_eq)

text \<open>
  On any sequence that holds each fine index \<open>0..99\<close> exactly once, the remapped values are
  exactly the 20 coarse indices, and the group of each has as many members as there are fine
  indices that the lookup maps to it.
\<close>

lemma remap_full_range_groups:
  assumes "mset targets = mset (map int [0..<100])"
  shows "set (remap_targets targets) = Some ` {0..19} \<and>
         card (set (remap_targets targets)) = 20 \<and>
         (\<Sum>c\<in>{0..19}. count (mset (remap_targets targets)) (Some c)) = 100 \<and>
         (\<forall>c. count (mset (remap_targets targets)) (Some c) =
                card {i. 0 \<le> i \<and> i \<le> 99 \<and> fine_to_coarse_idxs_get i = Inr (Some c)})"
proof -
  have M: "mset (remap_targets targets) = mset (map Some fine_idx_to_coarse)"
  proof -
    have "mset (remap_targets targets) = image_mset fine_to_coarse_idxs (mset targets)"
      by (simp add: remap_targets_def)
    also have "\<dots> = mset (map fine_to_coarse_idxs (map int [0..<100]))"
      by (simp only: assms mset_map)
    finally show ?thesis by (simp only: remap_full_range)
  qed
  have S: "set (remap_targets targets) = Some ` {0..19}"
  proof -
    have "set (remap_targets targets) = set_mset (mset (remap_targets targets))" by simp
    also have "\<dots> = Some ` set fine_idx_to_coarse" by (simp only: M set_mset_mset set_map)
    finally show ?thesis by (simp only: fine_idx_to_coarse_set)
  qed
  have C: "count (mset (remap_targets targets)) (Some c) = count (mset fine_idx_to_coarse) c" for c
    by (simp only: M count_map_Some)
  have D: "distinct targets \<and> set targets = {0..99}"
  proof -
    have "distinct (map int [0..<100])" by (simp add: distinct_map)
    then have "distinct targets" using assms by (metis mset_eq_imp_distinct_iff)
    moreover have "set targets = set (map int [0..<100])" using assms by (rule mset_eq_setD)
    moreover have "set (map int [0..<100]) = {0..99}"
    proof
      show "set (map int [0..<100]) \<subseteq> {0..99}" by auto
      show "{0..99} \<subseteq> set (map int [0..<100])"
      proof
        fix x :: int assume "x \<in> {0..99}"
        then have "x = int (nat x) \<and> nat x < 100" by auto
        then show "x \<in> set (map int [0..<100])" by (metis atLeastLessThan_iff image_eqI set_map set_upt zero_le)
      qed
    qed
    ultimately show ?thesis by simp
  qed
  have G: "count (mset (remap_targets targets)) (Some c) =
        card {i. 0 \<le> i \<and> i \<le> 99 \<and> fine_to_coarse_idxs_get i = Inr (Some c)}" for c
  proof -
    have "count (mset (remap_targets targets)) (Some c) =
          length (filter (\<lambda>i. fine_to_coarse_idxs i = Some c) targets)"
      by (simp only: remap_targets_def count_map_filter)
    also have "\<dots> = card (set (filter (\<lambda>i. fine_to_coarse_idxs i = Some c) targets))"
    proof -
      have "distinct (filter (\<lambda>i. fine_to_coarse_idxs i = Some c) targets)"
        using D by (simp only: distinct_filter)
      then show ?thesis by (simp only: distinct_card)
    qed
    also have "set (filter (\<lambda>i. fine_to_coarse_idxs i = Some c) targets) =
          {i. 0 \<le> i \<and> i \<le> 99 \<and> fine_to_coarse_idxs_get i = Inr (Some c)}"
      using D by (auto simp add: fine_to_coarse_idxs_get_def)
    finally show ?thesis .
  qed
  have "length (remap_targets targets) = length targets" by (simp add: remap_targets_def)
  moreover have "card (set (remap_targets targets)) = 20"
    by (simp add: S card_image)
  moreover have "(\<Sum>c\<in>{0..19}. count (mset (remap_targets targets)) (Some c)) = 100"
  proof -
    have "(\<Sum>c\<in>{0..19::int}. count (mset (remap_targets targets)) (Some c)) = (\<Sum>c\<in>{0..19::int}. 5)"
      by (rule sum.cong) (simp_all add: C fine_idx_to_coarse_count)
    then show ?thesis by simp
  qed
  ultimately show ?thesis using S G by blast
qed

text \<open>
  Claim C7. Remapping applies the lookup elementwise and preserves the length, on every
  sequence: the value at each position is \<^verbatim>\<open>fine_to_coarse_idxs.get\<close> of the target at that
  position. On any sequence that holds each fine index \<open>0..99\<close> exactly once, the values are
  exactly the 20 coarse indices, the sizes of the 20 groups sum to 100, and the group of a
  coarse index \<open>c\<close> has as many members as there are fine indices that the lookup maps to
  \<open>c\<close>.
\<close>

theorem remap_targets_groups:
  "length (remap_targets targets) = length targets \<and>
   (\<forall>i<length targets.
      fine_to_coarse_idxs_get (targets ! i) = Inr (remap_targets targets ! i)) \<and>
   (mset targets = mset (map int [0..<100]) \<longrightarrow>
      set (remap_targets targets) = Some ` {0..19} \<and>
      card (set (remap_targets targets)) = 20 \<and>
      (\<Sum>c\<in>{0..19}. count (mset (remap_targets targets)) (Some c)) = 100 \<and>
      (\<forall>c. count (mset (remap_targets targets)) (Some c) =
             card {i. 0 \<le> i \<and> i \<le> 99 \<and> fine_to_coarse_idxs_get i = Inr (Some c)}))"
proof (intro conjI impI)
  show "length (remap_targets targets) = length targets"
    by (simp add: remap_targets_def)
  show "\<forall>i<length targets.
      fine_to_coarse_idxs_get (targets ! i) = Inr (remap_targets targets ! i)"
    by (simp add: remap_targets_def fine_to_coarse_idxs_get_def)
next
  assume h: "mset targets = mset (map int [0..<100])"
  note g = remap_full_range_groups [OF h]
  from g show "set (remap_targets targets) = Some ` {0..19}" by blast
  from g show "card (set (remap_targets targets)) = 20" by blast
  from g show "(\<Sum>c\<in>{0..19}. count (mset (remap_targets targets)) (Some c)) = 100" by blast
  from g show "\<forall>c. count (mset (remap_targets targets)) (Some c) =
             card {i. 0 \<le> i \<and> i \<le> 99 \<and> fine_to_coarse_idxs_get i = Inr (Some c)}" by blast
qed

theorem remap_targets_groups_witness:
  "length (remap_targets [5, 0, 100]) = 3 \<and>
   fine_to_coarse_idxs_get 5 = Inr (remap_targets [5, 0, 100] ! 0) \<and>
   remap_targets [5, 0, 100] = [Some 6, Some 4, None] \<and>
   length (remap_targets (rev (map int [0..<100]))) = 100 \<and>
   card (set (remap_targets (rev (map int [0..<100])))) = 20"
proof -
  have h: "mset (rev (map int [0..<100])) = mset (map int [0..<100])"
    by (simp only: mset_rev)
  have l: "(0::nat) < length [5, 0, 100 :: int]" by simp
  have v: "remap_targets [5, 0, 100] = [Some 6, Some 4, None]"
    by (simp add: remap_targets_def fine_to_coarse_idxs_eq fine_idx_to_coarse_def)
  have n: "length (rev (map int [0..<100])) = 100" by simp
  from remap_targets_groups [of "[5, 0, 100]"] l v
  have a: "length (remap_targets [5, 0, 100]) = 3 \<and>
      fine_to_coarse_idxs_get 5 = Inr (remap_targets [5, 0, 100] ! 0)"
    by auto
  from remap_targets_groups [of "rev (map int [0..<100])"] h
  have "length (remap_targets (rev (map int [0..<100]))) = length (rev (map int [0..<100])) \<and>
      card (set (remap_targets (rev (map int [0..<100])))) = 20"
    by blast
  then have b: "length (remap_targets (rev (map int [0..<100]))) = 100 \<and>
      card (set (remap_targets (rev (map int [0..<100])))) = 20"
    by (simp only: n)
  from a b v show ?thesis by blast
qed

section \<open>Properties of the codec on concrete names\<close>

lemma py_in_iff_sublist: "py_in sub s \<longleftrightarrow> sublist sub s"
  by (induction s) (auto simp add: sublist_Cons_right)

text \<open>
  Claim C8, as amended. \<^verbatim>\<open>get_granularity\<close> returns \<^verbatim>\<open>"coarse"\<close> when the name contains
  \<^verbatim>\<open>"coarse"\<close>; it returns \<^verbatim>\<open>"fine"\<close> when the name contains \<^verbatim>\<open>"fine"\<close> and does not
  contain \<^verbatim>\<open>"coarse"\<close>; it raises the granularity error when the name contains neither.
  Substring occurrence is \<open>sublist\<close>, which \<open>py_in\<close> decides.
\<close>

theorem get_granularity_cases:
  "(sublist ''coarse'' name \<longrightarrow> get_granularity name = Inr ''coarse'') \<and>
   (\<not> sublist ''coarse'' name \<and> sublist ''fine'' name \<longrightarrow> get_granularity name = Inr ''fine'') \<and>
   (\<not> sublist ''coarse'' name \<and> \<not> sublist ''fine'' name \<longrightarrow>
      get_granularity name = Inl ValueError_granularity)"
  by (simp add: get_granularity_def py_in_iff_sublist)

theorem get_granularity_cases_witness:
  "get_granularity ''model_coarse_all_crop32'' = Inr ''coarse'' \<and>
   get_granularity ''model_fine_trees_crop32'' = Inr ''fine'' \<and>
   get_granularity ''model_class7_crop32'' = Inl ValueError_granularity"
proof -
  have c: "sublist ''coarse'' ''model_coarse_all_crop32''"
    by (simp only: py_in_iff_sublist [symmetric]) code_simp
  have f: "\<not> sublist ''coarse'' ''model_fine_trees_crop32'' \<and> sublist ''fine'' ''model_fine_trees_crop32''"
    by (simp only: py_in_iff_sublist [symmetric]) code_simp
  have n: "\<not> sublist ''coarse'' ''model_class7_crop32'' \<and> \<not> sublist ''fine'' ''model_class7_crop32''"
    by (simp only: py_in_iff_sublist [symmetric]) code_simp
  from c f n get_granularity_cases [of "''model_coarse_all_crop32''"]
    get_granularity_cases [of "''model_fine_trees_crop32''"]
    get_granularity_cases [of "''model_class7_crop32''"]
  show ?thesis by blast
qed

text \<open>
  Claim C8 as stated promises \<^verbatim>\<open>"fine"\<close> whenever \<^verbatim>\<open>"fine"\<close> occurs. A name that contains
  both markers is decoded as coarse, because the test for \<^verbatim>\<open>"coarse"\<close> comes first.
\<close>

theorem get_granularity_both_counterexample:
  "sublist ''fine'' ''coarse_fine'' \<and> get_granularity ''coarse_fine'' = Inr ''coarse'' \<and>
   get_granularity ''coarse_fine'' \<noteq> Inr ''fine''"
proof -
  have "sublist ''fine'' ''coarse_fine''"
    by (simp only: py_in_iff_sublist [symmetric]) code_simp
  moreover have "get_granularity ''coarse_fine'' = Inr ''coarse''" by code_simp
  ultimately show ?thesis by simp
qed

text \<open>
  Claim C9 as stated: decoding \<^verbatim>\<open>model_class7_crop32_kernel8_width4_depth16.pt\<close> yields a
  record. The name has no granularity marker, so \<^verbatim>\<open>get_parameters\<close> raises at its first
  step; through \<^verbatim>\<open>parse_model_path\<close> the superclass scan finds no coarse class name and
  raises \<^verbatim>\<open>StopIteration\<close>.
\<close>

theorem decode_class7_counterexample:
  "get_parameters ''model_class7_crop32_kernel8_width4_depth16.pt'' = Inl ValueError_granularity \<and>
   decode_evaluate ''model_class7_crop32_kernel8_width4_depth16.pt'' = Inl StopIteration \<and>
   decode_embeddings ''model_class7_crop32_kernel8_width4_depth16.pt'' = Inl StopIteration"
  by code_simp

text \<open>
  Claim C9, as amended. On that file name each of the five parameter extractions succeeds
  (class 7, crop 32, kernel 8, width 4, depth 16) and only the granularity step fails; with a
  granularity marker in the name, \<^verbatim>\<open>get_parameters\<close> returns the record with
  superclass 7, crop size 32, kernel size 8, width factor 4 and depth 16.
\<close>

theorem decode_class7_fields:
  "get_parameter ''model_class7_crop32_kernel8_width4_depth16.pt'' ''class'' = Inr (Some 7) \<and>
   get_parameter ''model_class7_crop32_kernel8_width4_depth16.pt'' ''crop'' = Inr (Some 32) \<and>
   get_parameter ''model_class7_crop32_kernel8_width4_depth16.pt'' ''kernel'' = Inr (Some 8) \<and>
   get_parameter ''model_class7_crop32_kernel8_width4_depth16.pt'' ''width'' = Inr (Some 4) \<and>
   get_parameter ''model_class7_crop32_kernel8_width4_depth16.pt'' ''depth'' = Inr (Some 16) \<and>
   get_granularity ''model_class7_crop32_kernel8_width4_depth16.pt'' = Inl ValueError_granularity \<and>
   get_parameters ''model_coarse_class7_crop32_kernel8_width4_depth16.pt'' =
     Inr (''coarse'', 7, 32, 8, 4, 16)"
  by code_simp

text \<open>
  Claim C3. The two versions of \<^verbatim>\<open>superclass_to_idx\<close> diverge. On a name that contains
  \<^verbatim>\<open>"_all_"\<close>, \<^verbatim>\<open>evaluate.py\<close> returns a pair whose string has the placeholder removed and
  \<^verbatim>\<open>embeddings.py\<close> returns a single string with the placeholder replaced by
  \<^verbatim>\<open>"_class-1_"\<close>. On a name that contains \<^verbatim>\<open>"all_"\<close> but not \<^verbatim>\<open>"_all_"\<close> only
  \<^verbatim>\<open>evaluate.py\<close> takes the placeholder branch.
\<close>

theorem superclass_to_idx_divergent:
  "\<exists>f g. py_in ''all_'' f \<and> py_in ''_all_'' f \<and>
     superclass_to_idx_evaluate f = Inr (Pair_None ''coarse_crop32'') \<and>
     superclass_to_idx_embeddings f = Inr ''coarse_class-1_crop32'' \<and>
     py_in ''all_'' g \<and> \<not> py_in ''_all_'' g \<and>
     superclass_to_idx_evaluate g = Inr (Pair_None ''fish'') \<and>
     superclass_to_idx_embeddings g = Inr ''all_class1''"
proof -
  have "py_in ''all_'' ''coarse_all_crop32'' \<and> py_in ''_all_'' ''coarse_all_crop32'' \<and>
     superclass_to_idx_evaluate ''coarse_all_crop32'' = Inr (Pair_None ''coarse_crop32'') \<and>
     superclass_to_idx_embeddings ''coarse_all_crop32'' = Inr ''coarse_class-1_crop32''"
    by code_simp
  moreover have "py_in ''all_'' ''all_fish'' \<and> \<not> py_in ''_all_'' ''all_fish'' \<and>
     superclass_to_idx_evaluate ''all_fish'' = Inr (Pair_None ''fish'') \<and>
     superclass_to_idx_embeddings ''all_fish'' = Inr ''all_class1''"
    by code_simp
  ultimately show ?thesis by blast
qed

section \<open>Missing parameter tokens\<close>

lemma get_parameter_loop_none:
  "\<forall>element\<in>set elements. \<not> py_in param element \<Longrightarrow>
   get_parameter_loop param extension elements = Inr None"
  by (induction elements) simp_all

lemma py_int_error: "py_int s = Inl e \<Longrightarrow> e = ValueError_int s"
  by (simp add: py_int_def Let_def split: if_splits)

lemma get_parameter_loop_error:
  "get_parameter_loop param extension elements = Inl e \<Longrightarrow> \<exists>s. e = ValueError_int s"
proof (induction elements)
  case Nil
  then show ?case by simp
next
  case (Cons element rest)
  show ?case
  proof (cases "py_in param element")
    case True
    with Cons.prems show ?thesis
      by (auto simp add: bind_err_def split: sum.splits dest: py_int_error)
  next
    case False
    with Cons show ?thesis by simp
  qed
qed

lemma stage_valid_error:
  assumes "bind_err (get_parameter name p) int_of_result = Inl e"
      and "p \<in> set [''class'', ''crop'', ''kernel'', ''width'', ''depth'']"
  shows "e = TypeError_int_None \<or> (\<exists>s. e = ValueError_int s)"
proof (cases "get_parameter name p")
  case (Inl e')
  with assms(1) have "e' = e" by (simp add: bind_err_def)
  with Inl assms(2) have "get_parameter_loop p (CHR ''.'' # last (py_split name (CHR ''.''))) (py_split name (CHR ''_'')) = Inl e"
    by (simp add: get_parameter_def Let_def split: if_splits)
  then show ?thesis by (auto dest: get_parameter_loop_error)
next
  case (Inr v)
  with assms(1) show ?thesis
    by (cases v) (simp_all add: bind_err_def int_of_result_def)
qed

lemma get_parameters_Inr:
  assumes "get_parameters name = Inr r"
  shows "\<forall>p\<in>set [''class'', ''crop'', ''kernel'', ''width'', ''depth''].
           \<exists>v. get_parameter name p = Inr (Some v)"
  using assms
  by (auto simp add: get_parameters_def bind_err_def int_of_result_def
      split: sum.splits option.splits)

lemma get_parameters_Inl:
  assumes "get_parameters name = Inl e"
  shows "e = ValueError_granularity \<or>
         (\<exists>p\<in>set [''class'', ''crop'', ''kernel'', ''width'', ''depth''].
            bind_err (get_parameter name p) int_of_result = Inl e)"
proof (cases "get_granularity name")
  case (Inl e')
  then have "e' = ValueError_granularity"
    by (simp add: get_granularity_def split: if_splits)
  with Inl assms show ?thesis by (simp add: get_parameters_def bind_err_def)
next
  case (Inr g)
  with assms show ?thesis
    by (simp add: get_parameters_def) (auto simp add: bind_err_def split: sum.splits)
qed

text \<open>
  Claim C4, as amended. When no underscore-delimited token of the name contains a required
  parameter name (\<^verbatim>\<open>class\<close>, \<^verbatim>\<open>crop\<close>, \<^verbatim>\<open>kernel\<close>, \<^verbatim>\<open>width\<close> or \<^verbatim>\<open>depth\<close>),
  \<^verbatim>\<open>get_parameter\<close> returns \<^verbatim>\<open>None\<close> for it and \<^verbatim>\<open>get_parameters\<close> never returns a
  record: it raises the granularity error, the \<^verbatim>\<open>ValueError\<close> of \<^verbatim>\<open>int\<close> on an earlier
  malformed token, or the \<^verbatim>\<open>TypeError\<close> of \<^verbatim>\<open>int(None)\<close>. None of these names the
  missing token.
\<close>

theorem get_parameters_missing_token:
  assumes "param \<in> set [''class'', ''crop'', ''kernel'', ''width'', ''depth'']"
      and "\<forall>element\<in>set (py_split name (CHR ''_'')). \<not> py_in param element"
  shows "get_parameter name param = Inr None \<and>
         (\<exists>e. get_parameters name = Inl e \<and>
              (e = ValueError_granularity \<or> e = TypeError_int_None \<or> (\<exists>s. e = ValueError_int s)))"
proof -
  have none: "get_parameter name param = Inr None"
    using assms by (simp add: get_parameter_def Let_def get_parameter_loop_none)
  have "\<exists>e. get_parameters name = Inl e"
  proof (cases "get_parameters name")
    case (Inl e)
    then show ?thesis by blast
  next
    case (Inr r)
    from get_parameters_Inr [OF Inr] assms(1) have "\<exists>v. get_parameter name param = Inr (Some v)"
      by blast
    with none show ?thesis by simp
  qed
  then obtain e where e: "get_parameters name = Inl e" by blast
  from get_parameters_Inl [OF e]
  have "e = ValueError_granularity \<or> e = TypeError_int_None \<or> (\<exists>s. e = ValueError_int s)"
    by (auto dest: stage_valid_error)
  with none e show ?thesis by blast
qed


theorem get_parameters_missing_token_witness:
  "''crop'' \<in> set [''class'', ''crop'', ''kernel'', ''width'', ''depth''] \<and>
   get_parameter ''coarse_class7_kernel8_width4_depth16'' ''crop'' = Inr None \<and>
   (\<exists>e. get_parameters ''coarse_class7_kernel8_width4_depth16'' = Inl e)"
proof -
  have p: "''crop'' \<in> set [''class'', ''crop'', ''kernel'', ''width'', ''depth'']"
    by simp
  have t: "\<forall>element\<in>set (py_split ''coarse_class7_kernel8_width4_depth16'' (CHR ''_'')).
      \<not> py_in ''crop'' element"
    by code_simp
  from get_parameters_missing_token [OF p t] p show ?thesis by blast
qed

text \<open>
  Claim C4 as stated: a \<^verbatim>\<open>MissingParameter\<close> error that names the token, rather than a
  null value. On a name without a \<^verbatim>\<open>crop\<close> token \<^verbatim>\<open>get_parameter\<close> returns \<^verbatim>\<open>None\<close>,
  and \<^verbatim>\<open>get_parameters\<close> fails with the \<^verbatim>\<open>TypeError\<close> of \<^verbatim>\<open>int(None)\<close>.
\<close>

theorem get_parameters_missing_token_counterexample:
  "get_parameter ''coarse_class7_kernel8_width4_depth16'' ''crop'' = Inr None \<and>
   get_parameters ''coarse_class7_kernel8_width4_depth16'' = Inl TypeError_int_None"
  by code_simp

section \<open>Resolving the superclass name\<close>

text \<open>
  The dictionary \<^verbatim>\<open>coarse_class_to_idx\<close> lists its twenty names with the indices
  \<open>0\<close> to \<open>19\<close> in order, and no name twice.
\<close>

lemma coarse_class_to_idx_snd: "map snd coarse_class_to_idx = map int [0..<20]"
  by (simp add: coarse_class_to_idx_def upt_rec)

lemma coarse_class_to_idx_length: "length coarse_class_to_idx = 20"
  by (simp add: coarse_class_to_idx_def)

lemma coarse_class_to_idx_distinct: "distinct (map fst coarse_class_to_idx)"
  by (simp add: coarse_class_to_idx_def)

lemma coarse_class_to_idx_item_nth:
  assumes "i < 20"
  shows "coarse_class_to_idx_item (fst (coarse_class_to_idx ! i)) = Inr (int i)"
proof -
  have i: "i < length coarse_class_to_idx" using assms by (simp add: coarse_class_to_idx_length)
  have "snd (coarse_class_to_idx ! i) = map snd coarse_class_to_idx ! i"
    using i by simp
  also have "\<dots> = int i" using assms by (simp only: coarse_class_to_idx_snd) simp
  finally have s: "snd (coarse_class_to_idx ! i) = int i" .
  have "coarse_class_to_idx ! i \<in> set coarse_class_to_idx" using i by simp
  then have "(fst (coarse_class_to_idx ! i), int i) \<in> set coarse_class_to_idx"
    using s by (metis prod.collapse)
  then have "map_of coarse_class_to_idx (fst (coarse_class_to_idx ! i)) = Some (int i)"
    using coarse_class_to_idx_distinct by simp
  then show ?thesis by (simp add: coarse_class_to_idx_item_def)
qed

lemma first_superclass_none:
  assumes "\<forall>k\<in>set (map fst coarse_class_to_idx). \<not> py_in k filename"
  shows "first_superclass filename = Inl StopIteration"
proof -
  have "find (\<lambda>k. py_in k filename) (map fst coarse_class_to_idx) = None"
    using assms by (simp only: find_None_iff) blast
  then show ?thesis by (simp add: first_superclass_def)
qed

lemma first_superclass_first:
  assumes "i < 20" and "py_in (fst (coarse_class_to_idx ! i)) filename"
      and "\<forall>j<i. \<not> py_in (fst (coarse_class_to_idx ! j)) filename"
  shows "first_superclass filename = Inr (fst (coarse_class_to_idx ! i))"
proof -
  let ?xs = "map fst coarse_class_to_idx"
  have i: "i < length ?xs" using assms(1) by (simp add: coarse_class_to_idx_length)
  have n: "?xs ! j = fst (coarse_class_to_idx ! j)" if "j \<le> i" for j
    using that i by simp
  have "find (\<lambda>k. py_in k filename) ?xs = Some (fst (coarse_class_to_idx ! i))"
    unfolding find_Some_iff
  proof (intro exI [of _ i] conjI allI impI)
    show "i < length ?xs" by (rule i)
    show "py_in (?xs ! i) filename" using assms(2) n [of i] by simp
    show "fst (coarse_class_to_idx ! i) = ?xs ! i" using n [of i] by simp
    fix j assume "j < i"
    then show "\<not> py_in (?xs ! j) filename" using assms(3) n [of j] by simp
  qed
  then show ?thesis by (simp add: first_superclass_def)
qed

text \<open>
  Claim C5, as amended. On a file name without the placeholder (\<^verbatim>\<open>"_all_"\<close> in
  \<^verbatim>\<open>embeddings.py\<close>, \<^verbatim>\<open>"all_"\<close> in \<^verbatim>\<open>evaluate.py\<close>): when none of the twenty coarse
  class names occurs in it, \<^verbatim>\<open>superclass_to_idx\<close> raises \<^verbatim>\<open>StopIteration\<close>; when the
  name at position \<open>i\<close> of the dictionary occurs and no earlier name does, it returns the
  file name with that name replaced by \<^verbatim>\<open>class\<close> followed by \<open>i\<close>, whatever later names
  occur as well.
\<close>

theorem superclass_to_idx_first_match:
  "((\<forall>k\<in>set (map fst coarse_class_to_idx). \<not> py_in k filename) \<longrightarrow>
      (\<not> py_in ''_all_'' filename \<longrightarrow>
         superclass_to_idx_embeddings filename = Inl StopIteration) \<and>
      (\<not> py_in ''all_'' filename \<longrightarrow>
         superclass_to_idx_evaluate filename = Inl StopIteration)) \<and>
   (i < 20 \<and> py_in (fst (coarse_class_to_idx ! i)) filename \<and>
      (\<forall>j<i. \<not> py_in (fst (coarse_class_to_idx ! j)) filename) \<longrightarrow>
      (\<not> py_in ''_all_'' filename \<longrightarrow>
         superclass_to_idx_embeddings filename =
           Inr (py_replace filename (fst (coarse_class_to_idx ! i)) (''class'' @ py_str (int i)))) \<and>
      (\<not> py_in ''all_'' filename \<longrightarrow>
         superclass_to_idx_evaluate filename =
           Inr (Str (py_replace filename (fst (coarse_class_to_idx ! i))
                       (''class'' @ py_str (int i))))))"
proof (intro conjI impI)
  assume "\<forall>k\<in>set (map fst coarse_class_to_idx). \<not> py_in k filename"
  then have f: "first_superclass filename = Inl StopIteration"
    by (rule first_superclass_none)
  { assume "\<not> py_in ''_all_'' filename"
    then show "superclass_to_idx_embeddings filename = Inl StopIteration"
      by (simp add: superclass_to_idx_embeddings_def f bind_err_def) }
  { assume "\<not> py_in ''all_'' filename"
    then show "superclass_to_idx_evaluate filename = Inl StopIteration"
      by (simp add: superclass_to_idx_evaluate_def f bind_err_def) }
next
  assume h: "i < 20 \<and> py_in (fst (coarse_class_to_idx ! i)) filename \<and>
      (\<forall>j<i. \<not> py_in (fst (coarse_class_to_idx ! j)) filename)"
  then have f: "first_superclass filename = Inr (fst (coarse_class_to_idx ! i))"
    by (simp add: first_superclass_first)
  from h have c: "coarse_class_to_idx_item (fst (coarse_class_to_idx ! i)) = Inr (int i)"
    by (simp add: coarse_class_to_idx_item_nth)
  { assume "\<not> py_in ''_all_'' filename"
    then show "superclass_to_idx_embeddings filename =
           Inr (py_replace filename (fst (coarse_class_to_idx ! i)) (''class'' @ py_str (int i)))"
      by (simp add: superclass_to_idx_embeddings_def f c bind_err_def) }
  { assume "\<not> py_in ''all_'' filename"
    then show "superclass_to_idx_evaluate filename =
           Inr (Str (py_replace filename (fst (coarse_class_to_idx ! i))
                       (''class'' @ py_str (int i))))"
      by (simp add: superclass_to_idx_evaluate_def f c bind_err_def) }
qed

theorem superclass_to_idx_first_match_witness:
  "superclass_to_idx_embeddings ''coarse_crop32'' = Inl StopIteration \<and>
   superclass_to_idx_evaluate ''coarse_crop32'' = Inl StopIteration \<and>
   superclass_to_idx_embeddings ''fine_trees_flowers'' = Inr ''fine_trees_class2'' \<and>
   superclass_to_idx_evaluate ''fine_trees_flowers'' = Inr (Str ''fine_trees_class2'')"
proof -
  have z: "\<forall>k\<in>set (map fst coarse_class_to_idx). \<not> py_in k ''coarse_crop32''"
    by code_simp
  have za: "\<not> py_in ''_all_'' ''coarse_crop32'' \<and> \<not> py_in ''all_'' ''coarse_crop32''"
    by code_simp
  have f0: "\<not> py_in (fst (coarse_class_to_idx ! 0)) ''fine_trees_flowers''"
    by code_simp
  have f1: "\<not> py_in (fst (coarse_class_to_idx ! 1)) ''fine_trees_flowers''"
    by code_simp
  have f2: "py_in (fst (coarse_class_to_idx ! 2)) ''fine_trees_flowers''"
    by code_simp
  have lt: "\<forall>j<2. \<not> py_in (fst (coarse_class_to_idx ! j)) ''fine_trees_flowers''"
  proof (intro allI impI)
    fix j :: nat assume "j < 2"
    then have "j = 0 \<or> j = 1" by auto
    then show "\<not> py_in (fst (coarse_class_to_idx ! j)) ''fine_trees_flowers''"
      using f0 f1 by auto
  qed
  have fa: "\<not> py_in ''_all_'' ''fine_trees_flowers'' \<and> \<not> py_in ''all_'' ''fine_trees_flowers''"
    by code_simp
  have r: "py_replace ''fine_trees_flowers'' (fst (coarse_class_to_idx ! 2)) (''class'' @ py_str (int 2))
      = ''fine_trees_class2''"
    by code_simp
  have two: "(2::nat) < 20" by simp
  from superclass_to_idx_first_match [of "''coarse_crop32''" 0] z za
  have a: "superclass_to_idx_embeddings ''coarse_crop32'' = Inl StopIteration \<and>
   superclass_to_idx_evaluate ''coarse_crop32'' = Inl StopIteration" by blast
  from superclass_to_idx_first_match [of "''fine_trees_flowers''" 2] two f2 lt fa
  have "superclass_to_idx_embeddings ''fine_trees_flowers'' =
           Inr (py_replace ''fine_trees_flowers'' (fst (coarse_class_to_idx ! 2)) (''class'' @ py_str (int 2))) \<and>
        superclass_to_idx_evaluate ''fine_trees_flowers'' =
           Inr (Str (py_replace ''fine_trees_flowers'' (fst (coarse_class_to_idx ! 2)) (''class'' @ py_str (int 2))))"
    by blast
  with a show ?thesis by (simp only: r) 
qed

text \<open>
  Claim C5 as stated: a file name in which two coarse class names occur is rejected as
  ambiguous. \<^verbatim>\<open>fish_flowers\<close> contains both \<^verbatim>\<open>fish\<close> and \<^verbatim>\<open>flowers\<close>; both versions of
  \<^verbatim>\<open>superclass_to_idx\<close> return a name, with the first of the two replaced.
\<close>

theorem superclass_to_idx_two_names_counterexample:
  "py_in ''fish'' ''fish_flowers'' \<and> py_in ''flowers'' ''fish_flowers'' \<and>
   \<not> py_in ''_all_'' ''fish_flowers'' \<and> \<not> py_in ''all_'' ''fish_flowers'' \<and>
   superclass_to_idx_embeddings ''fish_flowers'' = Inr ''class1_flowers'' \<and>
   superclass_to_idx_evaluate ''fish_flowers'' = Inr (Str ''class1_flowers'')"
  by code_simp

section \<open>The kernel size in \<^verbatim>\<open>evaluate_multiclass.py\<close>\<close>

text \<open>
  Below \<open>2 ^ 53\<close> every natural number is a double, so \<^verbatim>\<open>int(crop_size / 4)\<close> is the
  integer quotient for a crop size from \<open>0\<close> up to there.
\<close>

lemma bit_length_le: "n < 2 ^ k \<Longrightarrow> bit_length n \<le> k"
proof (induction k arbitrary: n)
  case 0
  then have "n = 0" by simp
  then show ?case by (simp add: bit_length.simps)
next
  case (Suc k)
  show ?case
  proof (cases "n = 0")
    case True
    then show ?thesis by (simp add: bit_length.simps)
  next
    case False
    from Suc.prems have "n div 2 < 2 ^ k" by simp
    then have "bit_length (n div 2) \<le> k" by (rule Suc.IH)
    with False show ?thesis by (subst bit_length.simps) simp
  qed
qed

lemma round_to_double_small: "n < 2 ^ 53 \<Longrightarrow> round_to_double n = n"
  by (simp add: round_to_double_def bit_length_le)

lemma int_truediv_4_small:
  assumes "0 \<le> c" and "c < 2 ^ 53"
  shows "int_truediv_4 c = Inr (c div 4)"
proof -
  have n: "nat \<bar>c\<bar> < 2 ^ 53" using assms by (simp add: nat_less_iff)
  have r: "round_to_double (nat c) = nat c"
    using assms round_to_double_small [OF n] by simp
  have "(2::nat) ^ 53 < 2 ^ 1026" by (rule power_strict_increasing) simp_all
  with n have lt: "\<not> (2::nat) ^ 1026 \<le> nat c" using assms by simp
  have d: "int (nat c div 4) = c div 4" using assms by (simp add: zdiv_int)
  show ?thesis
    using assms lt d by (simp add: int_truediv_4_def r Let_def)
qed

lemma get_parameter_multiclass_eq:
  "p \<in> set [''crop'', ''kernel'', ''width'', ''depth''] \<Longrightarrow>
   get_parameter_multiclass name p = get_parameter name p"
  by (auto simp add: get_parameter_multiclass_def get_parameter_def Let_def)

lemma get_parameters_multiclass_Inr:
  assumes "get_parameters_multiclass f = Inr (c, k, w, d)"
  shows "get_parameter f ''crop'' = Inr (Some c) \<and> int_truediv_4 c = Inr k \<and>
         get_parameter f ''width'' = Inr (Some w) \<and> get_parameter f ''depth'' = Inr (Some d)"
proof -
  have e: "get_parameter_multiclass f ''crop'' = get_parameter f ''crop''"
    "get_parameter_multiclass f ''width'' = get_parameter f ''width''"
    "get_parameter_multiclass f ''depth'' = get_parameter f ''depth''"
    by (simp_all add: get_parameter_multiclass_eq)
  from assms show ?thesis
    unfolding get_parameters_multiclass_def e
    by (auto simp add: bind_err_def int_of_result_def split: sum.splits option.splits)
qed

lemma get_parameters_fields:
  assumes "get_parameters f = Inr (g, cl, c, k, w, d)"
  shows "get_granularity f = Inr g \<and> get_parameter f ''class'' = Inr (Some cl) \<and>
         get_parameter f ''crop'' = Inr (Some c) \<and> get_parameter f ''kernel'' = Inr (Some k) \<and>
         get_parameter f ''width'' = Inr (Some w) \<and> get_parameter f ''depth'' = Inr (Some d)"
  using assms
  by (auto simp add: get_parameters_def bind_err_def int_of_result_def
      split: sum.splits option.splits)

lemma int_truediv_4_small_neg:
  assumes "- (2 ^ 53) < c" and "c < 0"
  shows "int_truediv_4 c = Inr (- ((- c) div 4))"
proof -
  have n: "nat \<bar>c\<bar> < 2 ^ 53" using assms by (simp add: nat_less_iff)
  have r: "round_to_double (nat (- c)) = nat (- c)"
    using assms round_to_double_small [OF n] by simp
  have "(2::nat) ^ 53 < 2 ^ 1026" by (rule power_strict_increasing) simp_all
  with n have lt: "\<not> (2::nat) ^ 1026 \<le> nat (- c)" using assms by simp
  have d: "int (nat (- c) div 4) = (- c) div 4" using assms by (simp add: zdiv_int)
  show ?thesis
    using assms lt d by (simp add: int_truediv_4_def r Let_def)
qed

lemma bit_length_eq: "2 ^ k \<le> n \<Longrightarrow> n < 2 ^ Suc k \<Longrightarrow> bit_length n = Suc k"
proof (induction k arbitrary: n)
  case 0
  then have "n = 1" by simp
  then show ?case by (simp add: bit_length.simps)
next
  case (Suc k)
  from Suc.prems have "2 ^ k \<le> n div 2" "n div 2 < 2 ^ Suc k" by simp_all
  then have "bit_length (n div 2) = Suc k" by (rule Suc.IH)
  moreover from Suc.prems have "n \<noteq> 0" by auto
  ultimately show ?case by (subst bit_length.simps) simp
qed

lemma int_truediv_4_rounds_up:
  "int_truediv_4 18014398509481987 = Inr 4503599627370497"
proof -
  have b: "bit_length 18014398509481987 = Suc 54"
    by (rule bit_length_eq) simp_all
  have r: "round_to_double 18014398509481987 = 18014398509481988"
    by (simp add: round_to_double_def b Let_def)
  show ?thesis
    by (simp add: int_truediv_4_def r Let_def)
qed

lemma get_parameters_multiclass_iff:
  "get_parameters_multiclass f = Inr (c, k, w, d) \<longleftrightarrow>
     get_parameter_multiclass f ''crop'' = Inr (Some c) \<and> int_truediv_4 c = Inr k \<and>
     get_parameter_multiclass f ''width'' = Inr (Some w) \<and>
     get_parameter_multiclass f ''depth'' = Inr (Some d)"
  by (auto simp add: get_parameters_multiclass_def bind_err_def int_of_result_def
      split: sum.splits option.splits)

text \<open>
  Claim C10, as amended. \<^verbatim>\<open>get_parameters\<close> of \<^verbatim>\<open>evaluate_multiclass.py\<close> returns
  \<open>(c, k, w, d)\<close> exactly when \<open>c\<close>, \<open>w\<close> and \<open>d\<close> are read from the \<^verbatim>\<open>crop\<close>, \<^verbatim>\<open>width\<close>
  and \<^verbatim>\<open>depth\<close> tokens and \<open>k\<close> is \<^verbatim>\<open>int(c / 4)\<close>; the \<^verbatim>\<open>kernel\<close> token plays no part.
  \<^verbatim>\<open>int(c / 4)\<close> is the integer quotient \<open>c div 4\<close> for \<open>0 \<le> c < 2 ^ 53\<close>, and the quotient
  truncated towards zero for \<open>- 2 ^ 53 < c < 0\<close>. When \<^verbatim>\<open>get_parameters\<close> of \<^verbatim>\<open>evaluate.py\<close>
  and \<^verbatim>\<open>embeddings.py\<close> returns a record for the same name, its kernel size is the value
  \<open>kv\<close> of the \<^verbatim>\<open>kernel\<close> token, its crop size, width factor and depth are the same, and
  \<open>k\<close> differs from \<open>kv\<close> whenever \<open>kv\<close> is not \<^verbatim>\<open>int(c / 4)\<close>.
\<close>

theorem get_parameters_multiclass_kernel:
  "(get_parameters_multiclass f = Inr (c, k, w, d) \<longleftrightarrow>
      get_parameter_multiclass f ''crop'' = Inr (Some c) \<and> int_truediv_4 c = Inr k \<and>
      get_parameter_multiclass f ''width'' = Inr (Some w) \<and>
      get_parameter_multiclass f ''depth'' = Inr (Some d)) \<and>
   (0 \<le> c \<and> c < 2 ^ 53 \<longrightarrow> int_truediv_4 c = Inr (c div 4)) \<and>
   (- (2 ^ 53) < c \<and> c < 0 \<longrightarrow> int_truediv_4 c = Inr (- ((- c) div 4))) \<and>
   (get_parameters_multiclass f = Inr (c, k, w, d) \<and>
    get_parameters f = Inr (g, cl, c', kv, w', d') \<longrightarrow>
      get_parameter_multiclass f ''kernel'' = Inr (Some kv) \<and> c' = c \<and> w' = w \<and> d' = d \<and>
      (int_truediv_4 c \<noteq> Inr kv \<longrightarrow> k \<noteq> kv))"
proof (intro conjI impI)
  show "get_parameters_multiclass f = Inr (c, k, w, d) \<longleftrightarrow>
      get_parameter_multiclass f ''crop'' = Inr (Some c) \<and> int_truediv_4 c = Inr k \<and>
      get_parameter_multiclass f ''width'' = Inr (Some w) \<and>
      get_parameter_multiclass f ''depth'' = Inr (Some d)"
    by (rule get_parameters_multiclass_iff)
next
  assume "0 \<le> c \<and> c < 2 ^ 53"
  then show "int_truediv_4 c = Inr (c div 4)" by (simp add: int_truediv_4_small)
next
  assume "- (2 ^ 53) < c \<and> c < 0"
  then show "int_truediv_4 c = Inr (- ((- c) div 4))" by (simp add: int_truediv_4_small_neg)
next
  assume h: "get_parameters_multiclass f = Inr (c, k, w, d) \<and>
    get_parameters f = Inr (g, cl, c', kv, w', d')"
  note m = get_parameters_multiclass_Inr [OF conjunct1 [OF h]]
  note e = get_parameters_fields [OF conjunct2 [OF h]]
  show "get_parameter_multiclass f ''kernel'' = Inr (Some kv)"
    using e by (simp add: get_parameter_multiclass_eq)
  show "c' = c" using m e by simp
  show "w' = w" using m e by simp
  show "d' = d" using m e by simp
  { assume "int_truediv_4 c \<noteq> Inr kv"
    then show "k \<noteq> kv" using m by auto }
qed

theorem get_parameters_multiclass_kernel_witness:
  "get_parameters_multiclass ''wrn100class_crop32_width8_depth16'' = Inr (32, 8, 8, 16) \<and>
   get_parameter_multiclass ''wrn100class_crop32_width8_depth16'' ''kernel'' = Inr None \<and>
   get_parameters_multiclass ''coarse_class7_crop32_kernel9_width4_depth16'' =
     Inr (32, 8, 4, 16) \<and>
   get_parameters ''coarse_class7_crop32_kernel9_width4_depth16'' =
     Inr (''coarse'', 7, 32, 9, 4, 16) \<and>
   get_parameter_multiclass ''coarse_class7_crop32_kernel9_width4_depth16'' ''kernel'' =
     Inr (Some 9) \<and>
   int_truediv_4 32 = Inr (32 div 4) \<and> int_truediv_4 (- 7) = Inr (- (7 div 4))"
proof -
  let ?a = "''wrn100class_crop32_width8_depth16''"
  let ?f = "''coarse_class7_crop32_kernel9_width4_depth16''"
  have r: "(0::int) \<le> 32 \<and> (32::int) < 2 ^ 53" "- (2 ^ 53) < (- 7 :: int) \<and> (- 7 :: int) < 0"
    by simp_all
  from get_parameters_multiclass_kernel [of ?f 32 8 4 16] r(1)
  have t: "int_truediv_4 32 = Inr (32 div 4)" by blast
  from get_parameters_multiclass_kernel [of ?f "- 7" 8 4 16] r(2)
  have n: "int_truediv_4 (- 7) = Inr (- (7 div 4))" by simp
  have pa: "get_parameter_multiclass ?a ''crop'' = Inr (Some 32)"
      "get_parameter_multiclass ?a ''width'' = Inr (Some 8)"
      "get_parameter_multiclass ?a ''depth'' = Inr (Some 16)"
      "get_parameter_multiclass ?a ''kernel'' = Inr None"
    by code_simp+
  have pf: "get_parameter_multiclass ?f ''crop'' = Inr (Some 32)"
      "get_parameter_multiclass ?f ''width'' = Inr (Some 4)"
      "get_parameter_multiclass ?f ''depth'' = Inr (Some 16)"
    by code_simp+
  have t8: "int_truediv_4 32 = Inr 8" using t by simp
  from get_parameters_multiclass_kernel [of ?a 32 8 8 16] pa t8
  have ma: "get_parameters_multiclass ?a = Inr (32, 8, 8, 16)" by blast
  from get_parameters_multiclass_kernel [of ?f 32 8 4 16] pf t8
  have mf: "get_parameters_multiclass ?f = Inr (32, 8, 4, 16)" by blast
  have ev: "get_parameters ?f = Inr (''coarse'', 7, 32, 9, 4, 16)"
    by code_simp
  from get_parameters_multiclass_kernel [of ?f 32 8 4 16 "''coarse''" 7 32 9 4 16] mf ev
  have k: "get_parameter_multiclass ?f ''kernel'' = Inr (Some 9)" by blast
  from ma pa(4) mf ev k t n show ?thesis by blast
qed

text \<open>
  Claim C10 as stated: the kernel size is always the integer quotient of the crop size by 4,
  and differs from every \<^verbatim>\<open>kernel\<close> token that is not that quotient. For the crop size
  \<open>2 ^ 54 + 3\<close> the double nearest to the quotient is \<open>2 ^ 52 + 1\<close>, one more than the integer
  quotient \<open>2 ^ 52\<close>; a \<^verbatim>\<open>kernel\<close> token of that value differs from the integer quotient
  and is what the decoder returns.
\<close>

theorem get_parameters_multiclass_kernel_counterexample:
  "get_parameter_multiclass
     ''coarse_class7_crop18014398509481987_kernel4503599627370497_width4_depth16''
     ''kernel'' = Inr (Some 4503599627370497) \<and>
   (4503599627370497 :: int) \<noteq> 18014398509481987 div 4 \<and>
   get_parameters_multiclass
     ''coarse_class7_crop18014398509481987_kernel4503599627370497_width4_depth16'' =
     Inr (18014398509481987, 4503599627370497, 4, 16)"
proof -
  let ?f = "''coarse_class7_crop18014398509481987_kernel4503599627370497_width4_depth16''"
  have p: "get_parameter_multiclass ?f ''crop'' = Inr (Some 18014398509481987)"
      "get_parameter_multiclass ?f ''width'' = Inr (Some 4)"
      "get_parameter_multiclass ?f ''depth'' = Inr (Some 16)"
      "get_parameter_multiclass ?f ''kernel'' = Inr (Some 4503599627370497)"
    by (simp_all add: get_parameter_multiclass_def Let_def bind_err_def py_int_def
        py_strip_def py_isspace_def py_isdigit_def digits_value_def)
  have "get_parameters_multiclass ?f = Inr (18014398509481987, 4503599627370497, 4, 16)"
    using p int_truediv_4_rounds_up by (simp only: get_parameters_multiclass_iff)
  with p show ?thesis by simp
qed

section \<open>The placeholder for all superclasses\<close>

text \<open>
  \<^verbatim>\<open>embeddings.py\<close> replaces \<^verbatim>\<open>"_all_"\<close> by \<^verbatim>\<open>"_class-1_"\<close>. The new token is the
  first one to contain \<^verbatim>\<open>class\<close> when the name has no other occurrence of it, and
  an occurrence of \<^verbatim>\<open>coarse\<close> cannot overlap the placeholder, so it survives.
\<close>

lemma py_split_nonempty: "py_split s sep \<noteq> []"
  by (induction s) (simp_all split: list.splits)

lemma py_split_Cons:
  "py_split (c # cs) sep =
     (if c = sep then [] # py_split cs sep
      else (c # hd (py_split cs sep)) # tl (py_split cs sep))"
  using py_split_nonempty [of cs sep] by (cases "py_split cs sep") simp_all

lemma py_replace_Cons_no:
  "\<not> prefix (x # xs) (c # cs) \<Longrightarrow>
   py_replace (c # cs) (x # xs) new = c # py_replace cs (x # xs) new"
  by (simp only: py_replace.simps if_False)

lemma py_replace_at:
  "py_replace ((x # xs) @ rest) (x # xs) new = new @ py_replace rest (x # xs) new"
  by simp

lemma py_in_append_left: "\<not> py_in sub (p @ s) \<Longrightarrow> \<not> py_in sub p"
  by (simp add: py_in_iff_sublist sublist_append)

lemma py_in_append_right: "py_in sub s \<Longrightarrow> py_in sub (p @ s)"
  by (simp add: py_in_iff_sublist sublist_append)

lemma py_in_Cons: "py_in sub s \<Longrightarrow> py_in sub (c # s)"
  by simp

lemma py_int_minus_1: "py_int ''-1'' = Inr (- 1)"
  by code_simp

lemma class_token_value:
  "bind_err (py_int (py_replace (py_replace ''class-1'' ''class'' []) (CHR ''.'' # e) []))
     (\<lambda>i. Inr (Some i)) = Inr (Some (- 1))"
  by (simp add: py_int_minus_1 bind_err_def)

lemma py_in_class_token: "py_in ''class'' ''class-1''"
  by code_simp

lemma placeholder_token_loop:
  assumes "py_in ''_all_'' s" and "\<not> py_in ''class'' (p @ s)"
  shows "get_parameter_loop ''class'' (CHR ''.'' # e)
           ((p @ hd (py_split (py_replace s ''_all_'' ''_class-1_'') (CHR ''_''))) #
            tl (py_split (py_replace s ''_all_'' ''_class-1_'') (CHR ''_''))) = Inr (Some (- 1))"
  using assms
proof (induction s arbitrary: p)
  case Nil
  then show ?case by simp
next
  case (Cons c cs)
  let ?new = "''_class-1_''"
  show ?case
  proof (cases "prefix ''_all_'' (c # cs)")
    case True
    then obtain rest where r: "c # cs = ''_all_'' @ rest" by (auto simp add: prefix_def)
    then have c: "c = CHR ''_''" and cs: "cs = ''all_'' @ rest" by simp_all
    have rep: "py_replace (c # cs) ''_all_'' ?new = ?new @ py_replace rest ''_all_'' ?new"
      by (simp add: c cs)
    have sp: "py_split (?new @ py_replace rest ''_all_'' ?new) (CHR ''_'') =
          [] # ''class-1'' # py_split (py_replace rest ''_all_'' ?new) (CHR ''_'')"
      by (simp add: py_split_Cons del: py_split.simps py_replace.simps)
    have p: "\<not> py_in ''class'' p" using Cons.prems(2) by (rule py_in_append_left)
    show ?thesis
      unfolding rep sp using p py_in_class_token
      by (simp add: class_token_value del: py_in.simps py_replace.simps)
  next
    case False
    then have rep: "py_replace (c # cs) ''_all_'' ?new = c # py_replace cs ''_all_'' ?new"
      by (rule py_replace_Cons_no)
    from False Cons.prems(1) have a: "py_in ''_all_'' cs"
      by (simp only: py_in.simps simp_thms)
    show ?thesis
    proof (cases "c = CHR ''_''")
      case True
      have p: "\<not> py_in ''class'' p" using Cons.prems(2) by (rule py_in_append_left)
      have "\<not> py_in ''class'' ([] @ cs)"
        using Cons.prems(2) py_in_append_right [of "''class''" cs "p @ [c]"] by auto
      from Cons.IH [OF a this]
      have "get_parameter_loop ''class'' (CHR ''.'' # e)
              (py_split (py_replace cs ''_all_'' ?new) (CHR ''_'')) = Inr (Some (- 1))"
        using py_split_nonempty [of "py_replace cs ''_all_'' ?new" "CHR ''_''"] by simp
      then show ?thesis
        unfolding rep using True p
        by (simp add: py_split_Cons del: py_in.simps py_split.simps py_replace.simps)
    next
      case False
      have "\<not> py_in ''class'' ((p @ [c]) @ cs)" using Cons.prems(2) by simp
      from Cons.IH [OF a this] show ?thesis
        unfolding rep using False
        by (simp add: py_split_Cons del: py_in.simps py_split.simps py_replace.simps)
    qed
  qed
qed

lemma coarse_after_placeholder:
  "py_in ''coarse'' s \<Longrightarrow> py_in ''coarse'' (py_replace s ''_all_'' ''_class-1_'')"
proof (induction "length s" arbitrary: s rule: less_induct)
  case less
  let ?new = "''_class-1_''"
  show ?case
  proof (cases s)
    case Nil
    with less.prems show ?thesis by simp
  next
    case (Cons c cs)
    show ?thesis
    proof (cases "prefix ''_all_'' (c # cs)")
      case True
      then obtain rest where r: "c # cs = ''_all_'' @ rest" by (auto simp add: prefix_def)
      then have s: "s = ''_all_'' @ rest" using Cons by simp
      have rep: "py_replace s ''_all_'' ?new = ?new @ py_replace rest ''_all_'' ?new"
        by (simp add: s)
      from less.prems have "py_in ''coarse'' rest" by (simp add: s)
      moreover have "length rest < length s" by (simp add: s)
      ultimately have "py_in ''coarse'' (py_replace rest ''_all_'' ?new)"
        by (rule less.hyps [rotated])
      then show ?thesis unfolding rep by (rule py_in_append_right)
    next
      case False
      then have "py_replace (c # cs) ''_all_'' ?new = c # py_replace cs ''_all_'' ?new"
        by (rule py_replace_Cons_no)
      then have rep: "py_replace s ''_all_'' ?new = c # py_replace cs ''_all_'' ?new"
        by (simp only: Cons)
      show ?thesis
      proof (cases "prefix ''coarse'' (c # cs)")
        case True
        then obtain rest where r: "c # cs = ''coarse'' @ rest" by (auto simp add: prefix_def)
        then have s: "s = ''coarse'' @ rest" using Cons by simp
        have "py_replace s ''_all_'' ?new = ''coarse'' @ py_replace rest ''_all_'' ?new"
          by (simp add: s)
        then show ?thesis by simp
      next
        case False
        from less.prems have "py_in ''coarse'' (c # cs)" by (simp only: Cons)
        with False have "py_in ''coarse'' cs" by (simp only: py_in.simps simp_thms)
        moreover have "length cs < length s" using Cons by simp
        ultimately have "py_in ''coarse'' (py_replace cs ''_all_'' ?new)"
          by (rule less.hyps [rotated])
        then show ?thesis unfolding rep by (rule py_in_Cons)
      qed
    qed
  qed
qed


lemma class_of_placeholder:
  assumes "py_in ''_all_'' f" and "\<not> py_in ''class'' f"
  shows "get_parameter (py_replace f ''_all_'' ''_class-1_'') ''class'' = Inr (Some (- 1))"
proof -
  let ?n = "py_replace f ''_all_'' ''_class-1_''"
  from assms(2) have "\<not> py_in ''class'' ([] @ f)" by simp
  from placeholder_token_loop [OF assms(1) this]
  have "get_parameter_loop ''class'' (CHR ''.'' # last (py_split ?n (CHR ''.'')))
          (py_split ?n (CHR ''_'')) = Inr (Some (- 1))"
    using py_split_nonempty [of ?n "CHR ''_''"] by simp
  then show ?thesis by (simp add: get_parameter_def Let_def)
qed

text \<open>
  \<^verbatim>\<open>superclass_to_idx\<close> of \<^verbatim>\<open>embeddings.py\<close>, on a name that contains the placeholder
  \<^verbatim>\<open>"_all_"\<close> and \<^verbatim>\<open>"coarse"\<close> and does not contain \<^verbatim>\<open>"class"\<close>: the placeholder is
  replaced by \<^verbatim>\<open>"_class-1_"\<close>; on the result the granularity is \<^verbatim>\<open>coarse\<close> and the
  \<^verbatim>\<open>class\<close> parameter is \<open>-1\<close>, so a record that \<^verbatim>\<open>get_parameters\<close> returns for it has
  granularity \<^verbatim>\<open>coarse\<close> and superclass \<open>-1\<close>.
\<close>

lemma superclass_to_idx_all_coarse:
  assumes "py_in ''_all_'' f" and "py_in ''coarse'' f" and "\<not> py_in ''class'' f"
  shows "superclass_to_idx_embeddings f = Inr (py_replace f ''_all_'' ''_class-1_'') \<and>
         get_granularity (py_replace f ''_all_'' ''_class-1_'') = Inr ''coarse'' \<and>
         get_parameter (py_replace f ''_all_'' ''_class-1_'') ''class'' = Inr (Some (- 1)) \<and>
         (\<forall>r. bind_err (superclass_to_idx_embeddings f) get_parameters = Inr r \<longrightarrow>
              fst r = ''coarse'' \<and> fst (snd r) = - 1) \<and>
         (\<forall>c k w d.
            get_parameter (py_replace f ''_all_'' ''_class-1_'') ''crop'' = Inr (Some c) \<and>
            get_parameter (py_replace f ''_all_'' ''_class-1_'') ''kernel'' = Inr (Some k) \<and>
            get_parameter (py_replace f ''_all_'' ''_class-1_'') ''width'' = Inr (Some w) \<and>
            get_parameter (py_replace f ''_all_'' ''_class-1_'') ''depth'' = Inr (Some d) \<longrightarrow>
            bind_err (superclass_to_idx_embeddings f) get_parameters =
              Inr (''coarse'', - 1, c, k, w, d))"
proof -
  let ?n = "py_replace f ''_all_'' ''_class-1_''"
  have s: "superclass_to_idx_embeddings f = Inr ?n"
    using assms(1) by (simp add: superclass_to_idx_embeddings_def)
  have g: "get_granularity ?n = Inr ''coarse''"
    using coarse_after_placeholder [OF assms(2)] by (simp add: get_granularity_def)
  have c: "get_parameter ?n ''class'' = Inr (Some (- 1))"
    using assms(1,3) by (rule class_of_placeholder)
  have b: "bind_err (superclass_to_idx_embeddings f) get_parameters = get_parameters ?n"
    by (simp add: s bind_err_def)
  have r: "\<forall>r. bind_err (superclass_to_idx_embeddings f) get_parameters = Inr r \<longrightarrow>
              fst r = ''coarse'' \<and> fst (snd r) = - 1"
  proof (intro allI impI)
    fix r assume "bind_err (superclass_to_idx_embeddings f) get_parameters = Inr r"
    then have "get_parameters ?n = Inr r" by (simp only: b)
    then show "fst r = ''coarse'' \<and> fst (snd r) = - 1"
      using g c
      by (auto simp add: get_parameters_def bind_err_def int_of_result_def
          split: sum.splits option.splits)
  qed
  have t: "\<forall>c k w d.
            get_parameter ?n ''crop'' = Inr (Some c) \<and>
            get_parameter ?n ''kernel'' = Inr (Some k) \<and>
            get_parameter ?n ''width'' = Inr (Some w) \<and>
            get_parameter ?n ''depth'' = Inr (Some d) \<longrightarrow>
            bind_err (superclass_to_idx_embeddings f) get_parameters =
              Inr (''coarse'', - 1, c, k, w, d)"
    unfolding b using g c
    by (simp add: get_parameters_def bind_err_def int_of_result_def)
  from s g c r t show ?thesis by blast
qed

text \<open>
  Claim C2. On the well-formed name \<^verbatim>\<open>model_coarse_all_crop32_kernel8_width4_depth16.pt\<close>,
  which has the placeholder and \<^verbatim>\<open>coarse\<close>, \<^verbatim>\<open>evaluate.py\<close> removes the placeholder, so
  no token carries the superclass: \<^verbatim>\<open>get_parameter\<close> returns \<^verbatim>\<open>None\<close> for \<^verbatim>\<open>class\<close> and
  \<^verbatim>\<open>get_parameters\<close> stops at \<^verbatim>\<open>int(None)\<close> instead of returning a record with the
  sentinel. \<^verbatim>\<open>embeddings.py\<close> decodes the same name to granularity \<^verbatim>\<open>coarse\<close> and
  superclass \<open>-1\<close>.
\<close>

theorem decode_evaluate_all_coarse:
  "py_in ''all_'' ''model_coarse_all_crop32_kernel8_width4_depth16.pt'' \<and>
   py_in ''coarse'' ''model_coarse_all_crop32_kernel8_width4_depth16.pt'' \<and>
   parse_model_path_evaluate ''model_coarse_all_crop32_kernel8_width4_depth16.pt'' =
     Inr (Pair_None ''coarse_crop32_kernel8_width4_depth16'') \<and>
   get_parameter ''coarse_crop32_kernel8_width4_depth16'' ''class'' = Inr None \<and>
   decode_evaluate ''model_coarse_all_crop32_kernel8_width4_depth16.pt'' =
     Inl TypeError_int_None \<and>
   parse_model_path_embeddings ''model_coarse_all_crop32_kernel8_width4_depth16.pt'' =
     Inr ''coarse_class-1_crop32_kernel8_width4_depth16'' \<and>
   decode_embeddings ''model_coarse_all_crop32_kernel8_width4_depth16.pt'' =
     Inr (''coarse'', - 1, 32, 8, 4, 16)"
  by code_simp

end
